theory Spec2Isabelle
  imports Complex_Main "HOL-Library.AList"
begin

section \<open>Geometric primitives and measurement (geometry/triangle.ts)\<close>

text \<open>
  Coordinates, lengths and angles are modelled as reals: the geometry is read as exact
  arithmetic on finite numbers, without rounding and without signed zeros; where the
  source divides, the divisor is discussed at the definition. The tolerance comparisons
  \<open>isEqual\<close> and \<open>isAngleEqual\<close> are modelled on every value a JavaScript
  \<^verbatim>\<open>number\<close> can take, NaN and the two infinities included (type \<open>number\<close> below);
  the geometry passes them finite values.
\<close>

record point =
  pt_x :: real
  pt_y :: real

record segment =
  seg_start :: point
  seg_end :: point

record triangle =
  tri_A :: point
  tri_B :: point
  tri_C :: point

record sides =
  side_AB :: real
  side_AC :: real
  side_BC :: real

record angles =
  angle_A :: real
  angle_B :: real
  angle_C :: real

record TriangleMeasurements =
  m_sides :: sides
  m_angles :: angles

text \<open>\<^verbatim>\<open>Math.sqrt(Math.pow(p2.x - p1.x, 2) + Math.pow(p2.y - p1.y, 2))\<close>\<close>

definition distance :: "point \<Rightarrow> point \<Rightarrow> real" where
  "distance p1 p2 = sqrt ((pt_x p2 - pt_x p1)\<^sup>2 + (pt_y p2 - pt_y p1)\<^sup>2)"

text \<open>
  \<^verbatim>\<open>Math.atan2(y, x)\<close>: the bearing of the vector \<open>(x, y)\<close>, in \<open>(-\<pi>, \<pi>]\<close>, and 0 at
  the origin (the value ECMAScript gives for \<open>atan2(+0, +0)\<close>).
\<close>

definition atan2 :: "real \<Rightarrow> real \<Rightarrow> real" where
  "atan2 y x =
     (if 0 < x then arctan (y / x)
      else if x < 0 then (if 0 \<le> y then arctan (y / x) + pi else arctan (y / x) - pi)
      else if 0 < y then pi / 2
      else if y < 0 then - (pi / 2)
      else 0)"

definition angle :: "point \<Rightarrow> point \<Rightarrow> point \<Rightarrow> real" where
  "angle vertex p1 p2 =
     (let v1x = pt_x p1 - pt_x vertex; v1y = pt_y p1 - pt_y vertex;
          v2x = pt_x p2 - pt_x vertex; v2y = pt_y p2 - pt_y vertex
      in atan2 v2y v2x - atan2 v1y v1x)"

definition toDegrees :: "real \<Rightarrow> real" where
  "toDegrees radians = (radians * 180) / pi"

definition toRadians :: "real \<Rightarrow> real" where
  "toRadians degrees = (degrees * pi) / 180"

definition measureTriangle :: "triangle \<Rightarrow> TriangleMeasurements" where
  "measureTriangle t =
     \<lparr> m_sides = \<lparr> side_AB = distance (tri_A t) (tri_B t),
                   side_AC = distance (tri_A t) (tri_C t),
                   side_BC = distance (tri_B t) (tri_C t) \<rparr>,
       m_angles = \<lparr> angle_A = \<bar>toDegrees (angle (tri_A t) (tri_B t) (tri_C t))\<bar>,
                    angle_B = \<bar>toDegrees (angle (tri_B t) (tri_A t) (tri_C t))\<bar>,
                    angle_C = \<bar>toDegrees (angle (tri_C t) (tri_A t) (tri_B t))\<bar> \<rparr> \<rparr>"

text \<open>The tolerance parameter defaults to 0.001 in the source; here it is always explicit.\<close>

definition default_tolerance :: real where
  "default_tolerance = 1 / 1000"

definition isIsosceles :: "triangle \<Rightarrow> real \<Rightarrow> bool" where
  "isIsosceles t tolerance =
     (let s = m_sides (measureTriangle t) in \<bar>side_AB s - side_AC s\<bar> < tolerance)"

text \<open>
  A JavaScript \<^verbatim>\<open>number\<close>: a finite value, \<^verbatim>\<open>Infinity\<close>, \<^verbatim>\<open>-Infinity\<close> or \<^verbatim>\<open>NaN\<close>,
  with the subtraction, \<^verbatim>\<open>Math.abs\<close> and \<open><\<close> of IEEE 754 on the values that are not
  finite. On finite values the subtraction is exact here (no rounding, no overflow).
\<close>

datatype number = Finite real | PosInfinity | NegInfinity | NaN

fun js_sub :: "number \<Rightarrow> number \<Rightarrow> number" where
  "js_sub NaN b = NaN"
| "js_sub a NaN = NaN"
| "js_sub (Finite a) (Finite b) = Finite (a - b)"
| "js_sub (Finite a) PosInfinity = NegInfinity"
| "js_sub (Finite a) NegInfinity = PosInfinity"
| "js_sub PosInfinity PosInfinity = NaN"
| "js_sub PosInfinity b = PosInfinity"
| "js_sub NegInfinity NegInfinity = NaN"
| "js_sub NegInfinity b = NegInfinity"

fun js_abs :: "number \<Rightarrow> number" where
  "js_abs (Finite a) = Finite \<bar>a\<bar>"
| "js_abs PosInfinity = PosInfinity"
| "js_abs NegInfinity = PosInfinity"
| "js_abs NaN = NaN"

fun js_less :: "number \<Rightarrow> number \<Rightarrow> bool" where
  "js_less NaN b = False"
| "js_less a NaN = False"
| "js_less (Finite a) (Finite b) = (a < b)"
| "js_less (Finite a) PosInfinity = True"
| "js_less (Finite a) NegInfinity = False"
| "js_less PosInfinity b = False"
| "js_less NegInfinity NegInfinity = False"
| "js_less NegInfinity b = True"

text \<open>\<^verbatim>\<open>Math.abs(value1 - value2) < tolerance\<close>\<close>

definition isEqual :: "number \<Rightarrow> number \<Rightarrow> number \<Rightarrow> bool" where
  "isEqual value1 value2 tolerance = js_less (js_abs (js_sub value1 value2)) tolerance"

definition isAngleEqual :: "number \<Rightarrow> number \<Rightarrow> number \<Rightarrow> bool" where
  "isAngleEqual angle1 angle2 tolerance = js_less (js_abs (js_sub angle1 angle2)) tolerance"

definition getArea :: "triangle \<Rightarrow> real" where
  "getArea t =
     \<bar>(pt_x (tri_B t) - pt_x (tri_A t)) * (pt_y (tri_C t) - pt_y (tri_A t))
       - (pt_x (tri_C t) - pt_x (tri_A t)) * (pt_y (tri_B t) - pt_y (tri_A t))\<bar> / 2"

definition isValidTriangle :: "triangle \<Rightarrow> bool" where
  "isValidTriangle t =
     (let s = m_sides (measureTriangle t);
          AB = side_AB s; AC = side_AC s; BC = side_BC s
      in (AB + AC > BC) \<and> (AB + BC > AC) \<and> (AC + BC > AB))"

text \<open>
  \<^verbatim>\<open>getAngleBisectorIntersection\<close>. The source divides by \<open>lenAB\<close> and \<open>lenAC\<close>; for a
  triangle with \<open>A = B\<close> or \<open>A = C\<close> JavaScript yields NaN coordinates where HOL's
  \<open>x / 0 = 0\<close> yields numbers, so the coordinates computed here mean nothing for such
  input. Nothing proved below reads them.
\<close>

definition getAngleBisectorIntersection :: "triangle \<Rightarrow> point" where
  "getAngleBisectorIntersection t =
     (let A = tri_A t; B = tri_B t; C = tri_C t;
          ABx = pt_x B - pt_x A; ABy = pt_y B - pt_y A;
          ACx = pt_x C - pt_x A; ACy = pt_y C - pt_y A;
          lenAB = sqrt (ABx * ABx + ABy * ABy);
          lenAC = sqrt (ACx * ACx + ACy * ACy);
          unitABx = ABx / lenAB; unitABy = ABy / lenAB;
          unitACx = ACx / lenAC; unitACy = ACy / lenAC;
          bisectorDirx = unitABx + unitACx;
          bisectorDiry = unitABy + unitACy;
          BCx = pt_x C - pt_x B; BCy = pt_y C - pt_y B;
          AB_to_bisectorx = pt_x A - pt_x B; AB_to_bisectory = pt_y A - pt_y B;
          denominator = BCx * bisectorDiry - BCy * bisectorDirx
      in if \<bar>denominator\<bar> < 1 / 10000
         then \<lparr> pt_x = (pt_x B + pt_x C) / 2, pt_y = (pt_y B + pt_y C) / 2 \<rparr>
         else (let t' = (AB_to_bisectorx * bisectorDiry - AB_to_bisectory * bisectorDirx)
                          / denominator
               in \<lparr> pt_x = pt_x B + t' * BCx, pt_y = pt_y B + t' * BCy \<rparr>))"

section \<open>Fold transform (geometry/fold.ts)\<close>

definition reflectPoint :: "point \<Rightarrow> point \<Rightarrow> point \<Rightarrow> point" where
  "reflectPoint p lineStart lineEnd =
     (let lineDirx = pt_x lineEnd - pt_x lineStart;
          lineDiry = pt_y lineEnd - pt_y lineStart;
          toPointx = pt_x p - pt_x lineStart;
          toPointy = pt_y p - pt_y lineStart;
          lineLengthSq = lineDirx * lineDirx + lineDiry * lineDiry
      in if lineLengthSq = 0 then p
         else (let projection = (toPointx * lineDirx + toPointy * lineDiry) / lineLengthSq;
                   closestx = pt_x lineStart + projection * lineDirx;
                   closesty = pt_y lineStart + projection * lineDiry
               in \<lparr> pt_x = 2 * closestx - pt_x p, pt_y = 2 * closesty - pt_y p \<rparr>))"

record FoldResult =
  foldLine :: segment
  leftTriangle :: triangle
  rightTriangle :: triangle
  overlapArea :: real
  isValid :: bool

text \<open>
  The source also computes \<open>reflectedB\<close> and \<open>reflectedC\<close> inside the \<open>foldAngle > 90\<close>
  branch and never reads them; they are bound here the same way.
\<close>

definition foldTriangleAlongBisector :: "triangle \<Rightarrow> real \<Rightarrow> FoldResult" where
  "foldTriangleAlongBisector t foldAngle =
     (let bisectorPoint = getAngleBisectorIntersection t;
          fl = \<lparr> seg_start = tri_A t, seg_end = bisectorPoint \<rparr>;
          lt = \<lparr> tri_A = tri_A t, tri_B = tri_B t, tri_C = bisectorPoint \<rparr>;
          rt = \<lparr> tri_A = tri_A t, tri_B = bisectorPoint, tri_C = tri_C t \<rparr>;
          oa = (if foldAngle > 90
                then (let reflectedB = reflectPoint (tri_B t) (tri_A t) bisectorPoint;
                          reflectedC = reflectPoint (tri_C t) (tri_A t) bisectorPoint
                      in min (getArea lt) (getArea rt)
                           * sin (toRadians (min foldAngle 180)) * (1 / 2))
                else 0)
      in \<lparr> foldLine = fl, leftTriangle = lt, rightTriangle = rt,
           overlapArea = oa, isValid = True \<rparr>)"

section \<open>Congruence evaluator: RHS (geometry/congruence.ts)\<close>

datatype CongruenceType = SSS | SAS | ASA | RHS | RHA

record CongruenceCondition =
  cc_type :: CongruenceType
  cc_elements :: "string list"
  cc_isValid :: bool

definition rhs_condition :: CongruenceCondition where
  "rhs_condition =
     \<lparr> cc_type = RHS, cc_elements = [''right angle'', ''hypotenuse'', ''one side''],
       cc_isValid = True \<rparr>"

text \<open>The inner and the outer \<^verbatim>\<open>for ... of\<close> loop of \<^verbatim>\<open>checkRHS\<close>; the first match returns.\<close>

fun rhs_inner_loop :: "real \<Rightarrow> real list \<Rightarrow> real \<Rightarrow> CongruenceCondition option" where
  "rhs_inner_loop side1 [] tolerance = None"
| "rhs_inner_loop side1 (side2 # rest) tolerance =
     (if isEqual (Finite side1) (Finite side2) (Finite tolerance) then Some rhs_condition
      else rhs_inner_loop side1 rest tolerance)"

fun rhs_outer_loop :: "real list \<Rightarrow> real list \<Rightarrow> real \<Rightarrow> CongruenceCondition option" where
  "rhs_outer_loop [] otherSides2 tolerance = None"
| "rhs_outer_loop (side1 # rest) otherSides2 tolerance =
     (case rhs_inner_loop side1 otherSides2 tolerance of
        Some c \<Rightarrow> Some c
      | None \<Rightarrow> rhs_outer_loop rest otherSides2 tolerance)"

definition checkRHS :: "triangle \<Rightarrow> triangle \<Rightarrow> real \<Rightarrow> CongruenceCondition option" where
  "checkRHS triangle1 triangle2 tolerance =
     (let angles1 = m_angles (measureTriangle triangle1);
          angles2 = m_angles (measureTriangle triangle2);
          hasRightAngle1 = (isAngleEqual (Finite (angle_A angles1)) (Finite 90) (Finite tolerance) \<or>
                            isAngleEqual (Finite (angle_B angles1)) (Finite 90) (Finite tolerance) \<or>
                            isAngleEqual (Finite (angle_C angles1)) (Finite 90) (Finite tolerance));
          hasRightAngle2 = (isAngleEqual (Finite (angle_A angles2)) (Finite 90) (Finite tolerance) \<or>
                            isAngleEqual (Finite (angle_B angles2)) (Finite 90) (Finite tolerance) \<or>
                            isAngleEqual (Finite (angle_C angles2)) (Finite 90) (Finite tolerance))
      in if \<not> hasRightAngle1 \<or> \<not> hasRightAngle2 then None
         else (let sides1 = m_sides (measureTriangle triangle1);
                   sides2 = m_sides (measureTriangle triangle2);
                   hypotenuse1 = max (max (side_AB sides1) (side_AC sides1)) (side_BC sides1);
                   hypotenuse2 = max (max (side_AB sides2) (side_AC sides2)) (side_BC sides2)
               in if isEqual (Finite hypotenuse1) (Finite hypotenuse2) (Finite tolerance)
                  then (let otherSides1 =
                              filter (\<lambda>s. s \<noteq> hypotenuse1)
                                [side_AB sides1, side_AC sides1, side_BC sides1];
                            otherSides2 =
                              filter (\<lambda>s. s \<noteq> hypotenuse2)
                                [side_AB sides2, side_AC sides2, side_BC sides2]
                        in rhs_outer_loop otherSides1 otherSides2 tolerance)
                  else None))"

section \<open>Condition chip registry (engine/chip-system.ts)\<close>

text \<open>
  A chip keeps the fields the registry logic reads. The display texts of the source
  (\<open>label\<close>, \<open>description\<close>, \<open>hint\<close>) are Korean strings that no operation below branches
  on; they are left out. \<open>validationRule\<close> is optional in the source, hence an option.
\<close>

datatype ChipType = ChipSide | ChipAngle | ChipCommon | ChipGiven

record ChipDefinition =
  def_id :: string
  def_type :: ChipType
  def_order :: nat
  def_validationRule :: "(triangle \<Rightarrow> point option \<Rightarrow> bool) option"

record Chip =
  chip_id :: string
  chip_type :: ChipType
  collected :: bool
  isAvailable :: bool
  validationRule :: "(triangle \<Rightarrow> point option \<Rightarrow> bool) option"
  chip_order :: nat

definition mkDef ::
  "string \<Rightarrow> ChipType \<Rightarrow> nat \<Rightarrow> (triangle \<Rightarrow> point option \<Rightarrow> bool) \<Rightarrow> ChipDefinition" where
  "mkDef i ty n r =
     \<lparr> def_id = i, def_type = ty, def_order = n, def_validationRule = Some r \<rparr>"

definition CHIP_DEFINITIONS :: "ChipDefinition list" where
  "CHIP_DEFINITIONS =
     [ mkDef ''side-AB'' ChipGiven 1 (\<lambda>t fp. isIsosceles t default_tolerance),
       mkDef ''side-AC'' ChipGiven 2 (\<lambda>t fp. isIsosceles t default_tolerance),
       mkDef ''side-BC'' ChipSide 6 (\<lambda>t fp. True),
       mkDef ''side-BD'' ChipSide 9 (\<lambda>t fp. True),
       mkDef ''side-CD'' ChipSide 10 (\<lambda>t fp. True),
       mkDef ''common-AD'' ChipCommon 3 (\<lambda>t fp. True),
       mkDef ''angle-BAD'' ChipAngle 4 (\<lambda>t fp. True),
       mkDef ''angle-CAD'' ChipAngle 5 (\<lambda>t fp. True),
       mkDef ''angle-B'' ChipAngle 7 (\<lambda>t fp. True),
       mkDef ''angle-C'' ChipAngle 8 (\<lambda>t fp. True) ]"

record SASPattern =
  pat_name :: string
  requiredChips :: "string list"

text \<open>\<^verbatim>\<open>.slice(0,3)\<close> is \<open>take 3\<close>; the patterns are written as the source computes them.\<close>

definition SAS_PATTERNS :: "SASPattern list" where
  "SAS_PATTERNS =
     [ \<lparr> pat_name = ''Standard SAS'',
         requiredChips =
           take 3 [''side-AB'', ''side-AC'', ''common-AD'', ''angle-BAD'', ''angle-CAD''] \<rparr>,
       \<lparr> pat_name = ''Alternative SAS'',
         requiredChips =
           take 3 (filter (\<lambda>i. i \<noteq> ''angle-BAD'')
                     [''side-AB'', ''side-AC'', ''common-AD'', ''angle-BAD'', ''angle-CAD'']) \<rparr>,
       \<lparr> pat_name = ''Complete SAS'',
         requiredChips = [''side-AB'', ''side-AC'', ''common-AD''] \<rparr> ]"

text \<open>
  The manager's \<^verbatim>\<open>Map<string, Chip>\<close> is an association list in insertion order
  (\<^verbatim>\<open>Map.set\<close> is \<^const>\<open>AList.update\<close>: an existing key keeps its place, a new one
  goes to the end; \<^verbatim>\<open>Map.get\<close> is \<^const>\<open>map_of\<close>). Its \<^verbatim>\<open>Set<string>\<close> is a list
  without repetition, in insertion order.
\<close>

record ChipSystemManager =
  chips :: "(string \<times> Chip) list"
  collectedChips :: "string list"

definition set_add :: "string \<Rightarrow> string list \<Rightarrow> string list" where
  "set_add i xs = (if i \<in> set xs then xs else xs @ [i])"

definition set_delete :: "string \<Rightarrow> string list \<Rightarrow> string list" where
  "set_delete i xs = removeAll i xs"

definition chipOfDefinition :: "ChipDefinition \<Rightarrow> Chip" where
  "chipOfDefinition d =
     \<lparr> chip_id = def_id d, chip_type = def_type d, collected = False, isAvailable = False,
       validationRule = def_validationRule d, chip_order = def_order d \<rparr>"

definition initializeChips :: "(string \<times> Chip) list \<Rightarrow> (string \<times> Chip) list" where
  "initializeChips m =
     fold (\<lambda>chipDef acc. AList.update (def_id chipDef) (chipOfDefinition chipDef) acc)
       CHIP_DEFINITIONS m"

definition newChipSystemManager :: ChipSystemManager where
  "newChipSystemManager = \<lparr> chips = initializeChips [], collectedChips = [] \<rparr>"

text \<open>
  \<^verbatim>\<open>this.chips.forEach((chip, id) => this.chips.set(id, {...}))\<close> rewrites every entry
  under its own key, so it is a pointwise map over the entries.
\<close>

definition updateAvailability :: "ChipSystemManager \<Rightarrow> triangle \<Rightarrow> point option \<Rightarrow> ChipSystemManager" where
  "updateAvailability m t foldPoint =
     m\<lparr> chips :=
          map (\<lambda>(i, chip).
                 (i, case validationRule chip of
                       Some rule \<Rightarrow> chip\<lparr> isAvailable := rule t foldPoint \<rparr>
                     | None \<Rightarrow> chip\<lparr> isAvailable := True \<rparr>))
              (chips m) \<rparr>"

definition collectChip ::
  "ChipSystemManager \<Rightarrow> string \<Rightarrow> triangle \<Rightarrow> point option \<Rightarrow> bool \<times> ChipSystemManager" where
  "collectChip m chipId t foldPoint =
     (case map_of (chips m) chipId of
        None \<Rightarrow> (False, m)
      | Some chip \<Rightarrow>
          if collected chip \<or> \<not> isAvailable chip then (False, m)
          else (case validationRule chip of
                  None \<Rightarrow>
                    (True, m\<lparr> chips := AList.update chipId (chip\<lparr> collected := True \<rparr>) (chips m),
                              collectedChips := set_add chipId (collectedChips m) \<rparr>)
                | Some rule \<Rightarrow>
                    if \<not> rule t foldPoint then (False, m)
                    else
                      (True, m\<lparr> chips := AList.update chipId (chip\<lparr> collected := True \<rparr>) (chips m),
                                collectedChips := set_add chipId (collectedChips m) \<rparr>)))"

definition uncollectChip :: "ChipSystemManager \<Rightarrow> string \<Rightarrow> bool \<times> ChipSystemManager" where
  "uncollectChip m chipId =
     (case map_of (chips m) chipId of
        None \<Rightarrow> (False, m)
      | Some chip \<Rightarrow>
          if \<not> collected chip then (False, m)
          else (True, m\<lparr> chips := AList.update chipId (chip\<lparr> collected := False \<rparr>) (chips m),
                         collectedChips := set_delete chipId (collectedChips m) \<rparr>))"

definition getAvailableChips :: "ChipSystemManager \<Rightarrow> Chip list" where
  "getAvailableChips m = sort_key chip_order (filter isAvailable (map snd (chips m)))"

definition getCollectedChips :: "ChipSystemManager \<Rightarrow> Chip list" where
  "getCollectedChips m = sort_key chip_order (filter collected (map snd (chips m)))"

definition checkSASCompletion :: "ChipSystemManager \<Rightarrow> bool" where
  "checkSASCompletion m =
     (let collectedIds = collectedChips m
      in list_ex (\<lambda>pattern. list_all (\<lambda>chipId. chipId \<in> set collectedIds)
                               (requiredChips pattern))
           SAS_PATTERNS)"

definition reset :: "ChipSystemManager \<Rightarrow> ChipSystemManager" where
  "reset m =
     \<lparr> chips = map (\<lambda>(i, chip). (i, chip\<lparr> collected := False, isAvailable := False \<rparr>)) (chips m),
       collectedChips = [] \<rparr>"

record Progress =
  p_collected :: nat
  p_available :: nat
  p_total :: nat
  p_percentage :: int

text \<open>\<^verbatim>\<open>Math.round\<close> rounds to the nearest integer, halves upwards.\<close>

definition math_round :: "real \<Rightarrow> int" where
  "math_round r = \<lfloor>r + 1 / 2\<rfloor>"

definition getProgress :: "ChipSystemManager \<Rightarrow> Progress" where
  "getProgress m =
     (let available = length (getAvailableChips m);
          coll = length (collectedChips m);
          total = length (chips m)
      in \<lparr> p_collected = coll, p_available = available, p_total = total,
           p_percentage = (if total > 0 then math_round ((real coll / real total) * 100) else 0) \<rparr>)"

record ChipFlags =
  st_collected :: bool
  st_isAvailable :: bool

record ExportedState =
  ex_collectedChips :: "string list"
  ex_chipStates :: "(string \<times> ChipFlags) list"

text \<open>
  \<^verbatim>\<open>exportState\<close> writes one property per map entry into a fresh object; the keys of a
  \<^verbatim>\<open>Map\<close> differ pairwise, so the object lists the entries in map order.
\<close>

definition exportState :: "ChipSystemManager \<Rightarrow> ExportedState" where
  "exportState m =
     \<lparr> ex_collectedChips = collectedChips m,
       ex_chipStates =
         map (\<lambda>(i, chip). (i, \<lparr> st_collected = collected chip,
                                  st_isAvailable = isAvailable chip \<rparr>)) (chips m) \<rparr>"

definition importChipState :: "string \<times> ChipFlags \<Rightarrow> (string \<times> Chip) list \<Rightarrow> (string \<times> Chip) list" where
  "importChipState e cs =
     (case map_of cs (fst e) of
        None \<Rightarrow> cs
      | Some chip \<Rightarrow>
          AList.update (fst e)
            (chip\<lparr> collected := st_collected (snd e), isAvailable := st_isAvailable (snd e) \<rparr>) cs)"

definition importState :: "ChipSystemManager \<Rightarrow> ExportedState \<Rightarrow> ChipSystemManager" where
  "importState m st =
     \<lparr> chips = fold importChipState (ex_chipStates st) (chips m),
       collectedChips = fold set_add (ex_collectedChips st) [] \<rparr>"

definition isSASChipSetComplete :: "string list \<Rightarrow> bool" where
  "isSASChipSetComplete collectedChipIds =
     (let hasAngles = (''angle-BAD'' \<in> set collectedChipIds \<and> ''angle-CAD'' \<in> set collectedChipIds);
          hasSides = (''side-AB'' \<in> set collectedChipIds \<and> ''side-AC'' \<in> set collectedChipIds);
          hasCommon = (''common-AD'' \<in> set collectedChipIds)
      in hasAngles \<and> hasSides \<and> hasCommon)"

text \<open>
  The states a manager can be in: built by the constructor and changed only through its
  public operations. \<open>P\<close> says which records \<^verbatim>\<open>importState\<close> is given.
\<close>

inductive reachable :: "(ExportedState \<Rightarrow> bool) \<Rightarrow> ChipSystemManager \<Rightarrow> bool"
  for P :: "ExportedState \<Rightarrow> bool" where
  r_new: "reachable P newChipSystemManager"
| r_updateAvailability: "reachable P m \<Longrightarrow> reachable P (updateAvailability m t fp)"
| r_collectChip: "reachable P m \<Longrightarrow> reachable P (snd (collectChip m i t fp))"
| r_uncollectChip: "reachable P m \<Longrightarrow> reachable P (snd (uncollectChip m i))"
| r_reset: "reachable P m \<Longrightarrow> reachable P (reset m)"
| r_importState: "reachable P m \<Longrightarrow> P st \<Longrightarrow> reachable P (importState m st)"

section \<open>Activity state machine (engine/activity-machine.ts)\<close>

datatype MachineState = Action | Inquiry | Discovery | Misconception | Justification | Completed

record StepCompletion =
  sc_action :: bool
  sc_inquiry :: bool
  sc_discovery :: bool
  sc_misconception :: bool
  sc_justification :: bool

text \<open>\<open>completedAt\<close> is a \<^verbatim>\<open>Date\<close> in the source: here a clock reading, absent until stamped.\<close>

record ActivityContext =
  foldAngle :: real
  ctx_collectedChips :: "string list"
  selectedAnswer :: "string option"
  highlightedElements :: "string list"
  stepCompletion :: StepCompletion
  error :: "string option"
  completedAt :: "nat option"

datatype ActivityEvent =
    SET_FOLD_ANGLE real
  | COLLECT_CHIP string
  | SELECT_ANSWER string
  | HIGHLIGHT_ELEMENTS "string list"
  | COMPLETE_STEP
  | PROCEED_TO_NEXT
  | PROCEED_TO_PREV
  | RESET_MODULE
  | VALIDATE_PROGRESS
  | SKIP_DISCOVERY
  | BACK_TO_DISCOVERY
  | ERROR string

definition initialContext :: ActivityContext where
  "initialContext =
     \<lparr> foldAngle = 0, ctx_collectedChips = [], selectedAnswer = None,
       highlightedElements = [],
       stepCompletion = \<lparr> sc_action = False, sc_inquiry = False, sc_discovery = False,
                          sc_misconception = False, sc_justification = False \<rparr>,
       error = None, completedAt = None \<rparr>"

subsection \<open>Guards\<close>

definition canProceedFromAction :: "ActivityContext \<Rightarrow> bool" where
  "canProceedFromAction ctx = (foldAngle ctx \<ge> 90)"

definition canProceedFromInquiry :: "ActivityContext \<Rightarrow> bool" where
  "canProceedFromInquiry ctx = (selectedAnswer ctx = Some ''congruence'')"

definition canProceedFromDiscovery :: "ActivityContext \<Rightarrow> bool" where
  "canProceedFromDiscovery ctx =
     (let ids = ctx_collectedChips ctx
      in list_ex (\<lambda>p. list_all (\<lambda>i. i \<in> set ids) (requiredChips p)) SAS_PATTERNS)"

definition hasValidChip :: "ActivityContext \<Rightarrow> ActivityEvent \<Rightarrow> bool" where
  "hasValidChip ctx event =
     (case event of
        COLLECT_CHIP chipId \<Rightarrow>
          (let validIds = map def_id CHIP_DEFINITIONS
           in chipId \<in> set validIds \<and> chipId \<notin> set (ctx_collectedChips ctx))
      | _ \<Rightarrow> False)"

subsection \<open>Actions\<close>

definition setFoldAngle :: "ActivityContext \<Rightarrow> ActivityEvent \<Rightarrow> ActivityContext" where
  "setFoldAngle ctx event =
     (case event of
        SET_FOLD_ANGLE a \<Rightarrow> ctx\<lparr> foldAngle := max 0 (min 180 a) \<rparr>
      | _ \<Rightarrow> ctx)"

definition collectChipAction :: "ActivityContext \<Rightarrow> ActivityEvent \<Rightarrow> ActivityContext" where
  "collectChipAction ctx event =
     (case event of
        COLLECT_CHIP chipId \<Rightarrow>
          (if chipId \<notin> set (ctx_collectedChips ctx)
           then ctx\<lparr> ctx_collectedChips := ctx_collectedChips ctx @ [chipId] \<rparr>
           else ctx)
      | _ \<Rightarrow> ctx)"

definition selectAnswer :: "ActivityContext \<Rightarrow> ActivityEvent \<Rightarrow> ActivityContext" where
  "selectAnswer ctx event =
     (case event of
        SELECT_ANSWER answer \<Rightarrow> ctx\<lparr> selectedAnswer := Some answer \<rparr>
      | _ \<Rightarrow> ctx)"

text \<open>\<^verbatim>\<open>Array.from(new Set([...prev, ...next]))\<close>: first occurrences, in order.\<close>

definition highlightElements :: "ActivityContext \<Rightarrow> ActivityEvent \<Rightarrow> ActivityContext" where
  "highlightElements ctx event =
     (case event of
        HIGHLIGHT_ELEMENTS elements \<Rightarrow>
          ctx\<lparr> highlightedElements := fold set_add (highlightedElements ctx @ elements) [] \<rparr>
      | _ \<Rightarrow> ctx)"

definition markActionCompleted :: "ActivityContext \<Rightarrow> ActivityContext" where
  "markActionCompleted ctx = ctx\<lparr> stepCompletion := (stepCompletion ctx)\<lparr> sc_action := True \<rparr> \<rparr>"

definition markInquiryCompleted :: "ActivityContext \<Rightarrow> ActivityContext" where
  "markInquiryCompleted ctx = ctx\<lparr> stepCompletion := (stepCompletion ctx)\<lparr> sc_inquiry := True \<rparr> \<rparr>"

definition markDiscoveryCompleted :: "ActivityContext \<Rightarrow> ActivityContext" where
  "markDiscoveryCompleted ctx =
     ctx\<lparr> stepCompletion := (stepCompletion ctx)\<lparr> sc_discovery := True \<rparr> \<rparr>"

definition markJustificationCompleted :: "ActivityContext \<Rightarrow> ActivityContext" where
  "markJustificationCompleted ctx =
     ctx\<lparr> stepCompletion := (stepCompletion ctx)\<lparr> sc_justification := True \<rparr> \<rparr>"

text \<open>\<^verbatim>\<open>error: ({ event }) => event.type === 'ERROR' ? event.error : null\<close>\<close>

definition setError :: "ActivityContext \<Rightarrow> ActivityEvent \<Rightarrow> ActivityContext" where
  "setError ctx event =
     ctx\<lparr> error := (case event of ERROR e \<Rightarrow> Some e | _ \<Rightarrow> None) \<rparr>"

definition clearError :: "ActivityContext \<Rightarrow> ActivityContext" where
  "clearError ctx = ctx\<lparr> error := None \<rparr>"

text \<open>
  \<^verbatim>\<open>assign(() => initialContext)\<close> merges the keys of \<open>initialContext\<close> into the context;
  \<open>initialContext\<close> has no \<open>completedAt\<close> key, so that field keeps its value.
\<close>

definition resetToInitial :: "ActivityContext \<Rightarrow> ActivityContext" where
  "resetToInitial ctx = initialContext\<lparr> completedAt := completedAt ctx \<rparr>"

definition markCompleted :: "nat \<Rightarrow> ActivityContext \<Rightarrow> ActivityContext" where
  "markCompleted now ctx = ctx\<lparr> completedAt := Some now \<rparr>"

subsection \<open>Transitions\<close>

text \<open>
  Taking a transition from \<open>src\<close> to \<open>tgt\<close>: the only entry action of the machine is
  \<open>clearError\<close> on \<open>action\<close>, run when the state is entered from another state (a
  transition of a state to itself does not re-enter it in XState 5).
\<close>

definition enter :: "MachineState \<Rightarrow> MachineState \<Rightarrow> ActivityContext \<Rightarrow> MachineState \<times> ActivityContext" where
  "enter src tgt ctx = (tgt, if tgt = Action \<and> src \<noteq> Action then clearError ctx else ctx)"

text \<open>
  One event, dispatched at clock reading \<open>now\<close>. The handlers of the current state come
  first, then the machine-wide \<open>SET_FOLD_ANGLE\<close>; an event with no handler, or whose only
  handler has a false guard, changes nothing.
\<close>

fun transition ::
  "nat \<Rightarrow> MachineState \<times> ActivityContext \<Rightarrow> ActivityEvent \<Rightarrow> MachineState \<times> ActivityContext" where
  "transition now (Action, ctx) COMPLETE_STEP =
     (if canProceedFromAction ctx then enter Action Inquiry (markActionCompleted ctx)
      else enter Action Action (setError ctx COMPLETE_STEP))"
| "transition now (Action, ctx) PROCEED_TO_NEXT =
     (if canProceedFromAction ctx then enter Action Inquiry (markActionCompleted ctx)
      else (Action, ctx))"
| "transition now (Action, ctx) (HIGHLIGHT_ELEMENTS es) =
     (Action, highlightElements ctx (HIGHLIGHT_ELEMENTS es))"
| "transition now (Action, ctx) RESET_MODULE = enter Action Action (resetToInitial ctx)"
| "transition now (Action, ctx) (ERROR e) = (Action, setError ctx (ERROR e))"
| "transition now (Inquiry, ctx) (SELECT_ANSWER a) = (Inquiry, selectAnswer ctx (SELECT_ANSWER a))"
| "transition now (Inquiry, ctx) COMPLETE_STEP =
     (if canProceedFromInquiry ctx then enter Inquiry Discovery (markInquiryCompleted ctx)
      else (Inquiry, setError ctx COMPLETE_STEP))"
| "transition now (Inquiry, ctx) PROCEED_TO_NEXT =
     (if canProceedFromInquiry ctx then enter Inquiry Discovery (markInquiryCompleted ctx)
      else (Inquiry, ctx))"
| "transition now (Inquiry, ctx) PROCEED_TO_PREV = enter Inquiry Action ctx"
| "transition now (Inquiry, ctx) RESET_MODULE = enter Inquiry Action (resetToInitial ctx)"
| "transition now (Discovery, ctx) (COLLECT_CHIP c) =
     (if hasValidChip ctx (COLLECT_CHIP c) then (Discovery, collectChipAction ctx (COLLECT_CHIP c))
      else (Discovery, ctx))"
| "transition now (Discovery, ctx) COMPLETE_STEP =
     (if canProceedFromDiscovery ctx
      then enter Discovery Misconception (markDiscoveryCompleted ctx)
      else (Discovery, setError ctx COMPLETE_STEP))"
| "transition now (Discovery, ctx) PROCEED_TO_NEXT =
     (if canProceedFromDiscovery ctx
      then enter Discovery Misconception (markDiscoveryCompleted ctx)
      else (Discovery, ctx))"
| "transition now (Discovery, ctx) SKIP_DISCOVERY =
     enter Discovery Justification (markDiscoveryCompleted ctx)"
| "transition now (Discovery, ctx) (HIGHLIGHT_ELEMENTS es) =
     (Discovery, highlightElements ctx (HIGHLIGHT_ELEMENTS es))"
| "transition now (Discovery, ctx) PROCEED_TO_PREV = enter Discovery Inquiry ctx"
| "transition now (Discovery, ctx) RESET_MODULE = enter Discovery Action (resetToInitial ctx)"
| "transition now (Misconception, ctx) (SELECT_ANSWER a) =
     (Misconception, selectAnswer ctx (SELECT_ANSWER a))"
| "transition now (Misconception, ctx) PROCEED_TO_NEXT = enter Misconception Justification ctx"
| "transition now (Misconception, ctx) PROCEED_TO_PREV = enter Misconception Discovery ctx"
| "transition now (Misconception, ctx) RESET_MODULE =
     enter Misconception Action (resetToInitial ctx)"
| "transition now (Justification, ctx) COMPLETE_STEP =
     enter Justification Completed (markCompleted now (markJustificationCompleted ctx))"
| "transition now (Justification, ctx) BACK_TO_DISCOVERY = enter Justification Discovery ctx"
| "transition now (Justification, ctx) PROCEED_TO_PREV = enter Justification Misconception ctx"
| "transition now (Justification, ctx) RESET_MODULE =
     enter Justification Action (resetToInitial ctx)"
| "transition now (Completed, ctx) RESET_MODULE = enter Completed Action (resetToInitial ctx)"
| "transition now (s, ctx) (SET_FOLD_ANGLE a) = (s, setFoldAngle ctx (SET_FOLD_ANGLE a))"
| "transition now (s, ctx) ev = (s, ctx)"

text \<open>The order of the states as the module presents them.\<close>

definition pedagogical_sequence :: "MachineState list" where
  "pedagogical_sequence = [Action, Inquiry, Discovery, Misconception, Justification, Completed]"

section \<open>Concrete inputs and the claims' own vocabulary\<close>

text \<open>
  A right isosceles triangle whose apex \<open>A = (1, 0)\<close> lies to the right of the base
  \<open>B = (0, 1)\<close>, \<open>C = (0, -1)\<close>: the bearings from \<open>A\<close> to \<open>B\<close> and to \<open>C\<close> lie on either
  side of the negative x-axis.
\<close>

definition tri_straddle :: triangle where
  "tri_straddle =
     \<lparr> tri_A = \<lparr> pt_x = 1, pt_y = 0 \<rparr>,
       tri_B = \<lparr> pt_x = 0, pt_y = 1 \<rparr>,
       tri_C = \<lparr> pt_x = 0, pt_y = - 1 \<rparr> \<rparr>"

text \<open>
  The two triangles of the RHS lesson (\<^verbatim>\<open>createRightTrianglesPair\<close> in
  \<^verbatim>\<open>useRhsActivity.ts\<close>), which the lesson hands to \<^verbatim>\<open>checkRHS\<close>: the first has its
  right angle at \<open>C\<close>, the second at \<open>B\<close>.
\<close>

definition rhs_lesson_t1 :: triangle where
  "rhs_lesson_t1 =
     \<lparr> tri_A = \<lparr> pt_x = 26 / 10, pt_y = 1 \<rparr>,
       tri_B = \<lparr> pt_x = 8 / 10, pt_y = 25 / 10 \<rparr>,
       tri_C = \<lparr> pt_x = 26 / 10, pt_y = 25 / 10 \<rparr> \<rparr>"

definition rhs_lesson_t2 :: triangle where
  "rhs_lesson_t2 =
     \<lparr> tri_A = \<lparr> pt_x = 8 / 10, pt_y = 1 \<rparr>,
       tri_B = \<lparr> pt_x = 8 / 10, pt_y = 25 / 10 \<rparr>,
       tri_C = \<lparr> pt_x = 26 / 10, pt_y = 25 / 10 \<rparr> \<rparr>"

text \<open>
  The RHS criterion in the words of the specification, independent of
  \<open>measureTriangle\<close>'s angles. The angle of a triangle at a vertex is the angle between
  the two sides that meet there, between 0 and 180 degrees (from the scalar product;
  meant for triangles whose three points differ).
  The hypotenuse is the greatest of the three side lengths, and the other two sides are
  what is left of the three when one side of that length is taken away.
\<close>

definition spec_interiorAngle :: "point \<Rightarrow> point \<Rightarrow> point \<Rightarrow> real" where
  "spec_interiorAngle vertex p1 p2 =
     (let v1x = pt_x p1 - pt_x vertex; v1y = pt_y p1 - pt_y vertex;
          v2x = pt_x p2 - pt_x vertex; v2y = pt_y p2 - pt_y vertex
      in toDegrees (arccos ((v1x * v2x + v1y * v2y)
                              / (sqrt (v1x\<^sup>2 + v1y\<^sup>2) * sqrt (v2x\<^sup>2 + v2y\<^sup>2)))))"

definition spec_hasRightAngle :: "triangle \<Rightarrow> real \<Rightarrow> bool" where
  "spec_hasRightAngle t tol =
     (\<bar>spec_interiorAngle (tri_A t) (tri_B t) (tri_C t) - 90\<bar> < tol \<or>
      \<bar>spec_interiorAngle (tri_B t) (tri_A t) (tri_C t) - 90\<bar> < tol \<or>
      \<bar>spec_interiorAngle (tri_C t) (tri_A t) (tri_B t) - 90\<bar> < tol)"

definition spec_sides :: "triangle \<Rightarrow> real list" where
  "spec_sides t =
     [distance (tri_A t) (tri_B t), distance (tri_A t) (tri_C t), distance (tri_B t) (tri_C t)]"

definition spec_hypotenuse :: "triangle \<Rightarrow> real" where
  "spec_hypotenuse t = Max (set (spec_sides t))"

definition spec_otherSides :: "triangle \<Rightarrow> real list" where
  "spec_otherSides t = remove1 (spec_hypotenuse t) (spec_sides t)"

definition spec_RHS :: "triangle \<Rightarrow> triangle \<Rightarrow> real \<Rightarrow> bool" where
  "spec_RHS t1 t2 tol =
     (spec_hasRightAngle t1 tol \<and> spec_hasRightAngle t2 tol \<and>
      \<bar>spec_hypotenuse t1 - spec_hypotenuse t2\<bar> < tol \<and>
      list_ex (\<lambda>s1. list_ex (\<lambda>s2. \<bar>s1 - s2\<bar> < tol) (spec_otherSides t2))
        (spec_otherSides t1))"

text \<open>The required set of the SAS teaching pattern, as the specification lists it.\<close>

definition spec_required_set :: "string set" where
  "spec_required_set = {''angle-BAD'', ''angle-CAD'', ''side-AB'', ''side-AC'', ''common-AD''}"

definition chip_ids :: "string list" where
  "chip_ids = map def_id CHIP_DEFINITIONS"

text \<open>
  A session on \<open>tri_straddle\<close>: availability is refreshed once, then the two equal sides
  and the common side are collected.
\<close>

definition available_manager :: ChipSystemManager where
  "available_manager = updateAvailability newChipSystemManager tri_straddle None"

definition collect_in :: "string \<Rightarrow> ChipSystemManager \<Rightarrow> ChipSystemManager" where
  "collect_in i m = snd (collectChip m i tri_straddle None)"

definition three_sides_manager :: ChipSystemManager where
  "three_sides_manager =
     collect_in ''common-AD'' (collect_in ''side-AC'' (collect_in ''side-AB'' available_manager))"

text \<open>
  Which records \<^verbatim>\<open>importState\<close> may be given: any record at all, or only records whose
  \<open>collectedChips\<close> are ids of registered chips (every record that \<^verbatim>\<open>exportState\<close>
  produces from such a session is one).
\<close>

definition any_record :: "ExportedState \<Rightarrow> bool" where
  "any_record st = True"

definition known_ids_only :: "ExportedState \<Rightarrow> bool" where
  "known_ids_only st = list_all (\<lambda>i. i \<in> set chip_ids) (ex_collectedChips st)"

text \<open>A record naming eleven different ids, one of them not a chip, imported into a new manager.\<close>

definition eleven_ids :: "string list" where
  "eleven_ids = chip_ids @ [''angle-A'']"

definition overfull_manager :: ChipSystemManager where
  "overfull_manager =
     importState newChipSystemManager \<lparr> ex_collectedChips = eleven_ids, ex_chipStates = [] \<rparr>"

text \<open>The two flags of a chip that are exported, and their write-back on import.\<close>

definition flags_of :: "Chip \<Rightarrow> ChipFlags" where
  "flags_of c = \<lparr> st_collected = collected c, st_isAvailable = isAvailable c \<rparr>"

definition apply_flags :: "ChipFlags \<Rightarrow> Chip \<Rightarrow> Chip" where
  "apply_flags f c = c\<lparr> collected := st_collected f, isAvailable := st_isAvailable f \<rparr>"

text \<open>
  The guard a state puts on \<open>COMPLETE_STEP\<close> and \<open>PROCEED_TO_NEXT\<close> evaluates to false.
  \<open>misconception\<close>, \<open>justification\<close> and \<open>completed\<close> put no guard on these events.
\<close>

fun guard_fails :: "MachineState \<Rightarrow> ActivityContext \<Rightarrow> bool" where
  "guard_fails Action ctx = (\<not> canProceedFromAction ctx)"
| "guard_fails Inquiry ctx = (\<not> canProceedFromInquiry ctx)"
| "guard_fails Discovery ctx = (\<not> canProceedFromDiscovery ctx)"
| "guard_fails Misconception ctx = False"
| "guard_fails Justification ctx = False"
| "guard_fails Completed ctx = False"

text \<open>The initial context with the fold angle at 45 degrees.\<close>

definition ctx_fold45 :: ActivityContext where
  "ctx_fold45 = initialContext\<lparr> foldAngle := 45 \<rparr>"

section \<open>Tolerance equality\<close>

lemma isEqual_Finite:
  "isEqual (Finite a) (Finite b) (Finite t) = (\<bar>a - b\<bar> < t)"
  "isAngleEqual (Finite a) (Finite b) (Finite t) = (\<bar>a - b\<bar> < t)"
  by (simp_all add: isEqual_def isAngleEqual_def)

text \<open>
  C9 (as amended). \<open>isEqual\<close> and \<open>isAngleEqual\<close> are symmetric for every tolerance and
  all \<open>a\<close>, \<open>b\<close>, NaN and the infinities included; for every tolerance greater than 0
  they are reflexive at every finite \<open>x\<close>. (In IEEE arithmetic \<open>x - x\<close> is 0 for finite
  \<open>x\<close> and \<open>b - a\<close> is the negation of \<open>a - b\<close>, so the rounding that the model leaves out
  bears on neither property.)
\<close>

theorem isEqual_reflexive_symmetric:
  "isEqual a b tol = isEqual b a tol \<and> isAngleEqual a b tol = isAngleEqual b a tol \<and>
   (js_less (Finite 0) tol \<longrightarrow>
      isEqual (Finite x) (Finite x) tol \<and> isAngleEqual (Finite x) (Finite x) tol)"
proof -
  have s: "js_abs (js_sub a b) = js_abs (js_sub b a)"
    by (cases a; cases b) (simp_all add: abs_minus_commute)
  have r: "js_abs (js_sub (Finite x) (Finite x)) = Finite 0"
    by simp
  show ?thesis
    unfolding isEqual_def isAngleEqual_def s r by simp
qed

theorem isEqual_reflexive_symmetric_witness:
  "js_less (Finite 0) (Finite (1 / 1000)) \<and>
   isEqual (Finite 5) (Finite 5) (Finite (1 / 1000)) \<and>
   isAngleEqual (Finite 5) (Finite 5) (Finite (1 / 1000)) \<and>
   isEqual (Finite 1) PosInfinity (Finite (1 / 1000))
     = isEqual PosInfinity (Finite 1) (Finite (1 / 1000))"
  using isEqual_reflexive_symmetric [of "Finite 1" PosInfinity "Finite (1 / 1000)" 5]
  by simp

text \<open>
  C9 as stated fails in two ways. At tolerance 0, which is a tolerance \<open>\<ge> 0\<close>, the strict
  comparison \<open>|x - x| < 0\<close> is false for every \<open>x\<close>. At a positive tolerance, \<open>x - x\<close> is
  NaN for \<open>x\<close> NaN, \<^verbatim>\<open>Infinity\<close> or \<^verbatim>\<open>-Infinity\<close>, and NaN is less than nothing.
\<close>

theorem isEqual_not_reflexive_counterexample:
  "\<not> js_less (Finite 0) (Finite 0) \<and>
   \<not> isEqual (Finite 1) (Finite 1) (Finite 0) \<and>
   \<not> isAngleEqual (Finite 1) (Finite 1) (Finite 0) \<and>
   js_less (Finite 0) (Finite (1 / 1000)) \<and>
   \<not> isEqual NaN NaN (Finite (1 / 1000)) \<and>
   \<not> isEqual PosInfinity PosInfinity (Finite (1 / 1000)) \<and>
   \<not> isEqual NegInfinity NegInfinity (Finite (1 / 1000))"
  by (simp add: isEqual_def isAngleEqual_def)

section \<open>Measured angles\<close>

lemma atan2_values:
  "atan2 1 (- 1) = 3 * pi / 4" "atan2 (- 1) (- 1) = - (3 * pi / 4)"
  "atan2 (- 1) 1 = - (pi / 4)" "atan2 (- 2) 0 = - (pi / 2)"
  "atan2 1 1 = pi / 4" "atan2 2 0 = pi / 2"
  by (simp_all add: atan2_def arctan_minus arctan_one)

text \<open>
  C2. On the valid triangle \<open>tri_straddle\<close> the bearings at \<open>A\<close> are 135 and -135 degrees;
  their difference is -270, and \<open>measureTriangle\<close> reports 270 degrees for the right angle
  at \<open>A\<close>. The three measured angles sum to 360, not 180.
\<close>

theorem measureTriangle_angle_sum_360:
  "isValidTriangle tri_straddle \<and>
   m_angles (measureTriangle tri_straddle) = \<lparr> angle_A = 270, angle_B = 45, angle_C = 45 \<rparr> \<and>
   angle_A (m_angles (measureTriangle tri_straddle))
     + angle_B (m_angles (measureTriangle tri_straddle))
     + angle_C (m_angles (measureTriangle tri_straddle)) = 360"
proof -
  have v: "isValidTriangle tri_straddle"
    by (simp add: isValidTriangle_def measureTriangle_def tri_straddle_def distance_def Let_def)
  have a: "m_angles (measureTriangle tri_straddle)
             = \<lparr> angle_A = 270, angle_B = 45, angle_C = 45 \<rparr>"
    by (simp add: measureTriangle_def tri_straddle_def angle_def toDegrees_def atan2_values)
  show ?thesis using v a by simp
qed

section \<open>Fold transform\<close>

text \<open>
  C10. For every triangle and every fold angle \<open>foldTriangleAlongBisector\<close> returns a
  result whose \<open>isValid\<close> is true, and whose \<open>overlapArea\<close> is 0 when the fold angle is at
  most 90.
\<close>

theorem foldTriangleAlongBisector_valid:
  "isValid (foldTriangleAlongBisector t a) \<and>
   (a \<le> 90 \<longrightarrow> overlapArea (foldTriangleAlongBisector t a) = 0)"
  by (simp add: foldTriangleAlongBisector_def Let_def)

theorem foldTriangleAlongBisector_valid_witness:
  "(45::real) \<le> 90 \<and> isValid (foldTriangleAlongBisector tri_straddle 45) \<and>
   overlapArea (foldTriangleAlongBisector tri_straddle 45) = 0"
  using foldTriangleAlongBisector_valid [of tri_straddle 45] by simp

section \<open>RHS congruence\<close>

lemma arctan_5_6_bounds: "pi / 8 < arctan (5 / 6)" "arctan (5 / 6) < pi / 4"
proof -
  have "arctan (5 / 6) + arctan (1 / 11) = arctan ((5 / 6 + 1 / 11) / (1 - 5 / 6 * (1 / 11)))"
    by (rule arctan_add) simp_all
  then have sum: "arctan (5 / 6) + arctan (1 / 11) = pi / 4"
    by (simp add: arctan_one)
  have "arctan (1 / 11) < arctan (5 / 6)"
    by (simp add: arctan_less_iff)
  with sum show "pi / 8 < arctan (5 / 6)" by linarith
  have "arctan (5 / 6) < arctan 1"
    by (simp add: arctan_less_iff)
  then show "arctan (5 / 6) < pi / 4" by (simp add: arctan_one)
qed

lemma lesson_t1_angles:
  "m_angles (measureTriangle rhs_lesson_t1) =
     \<lparr> angle_A = 90 - toDegrees (arctan (5 / 6)),
       angle_B = toDegrees (arctan (5 / 6)),
       angle_C = 270 \<rparr>"
proof -
  have a: "atan2 (3 / 2) (- (9 / 5)) = pi - arctan (5 / 6)"
    by (simp add: atan2_def arctan_minus)
  have b: "atan2 (- (3 / 2)) (9 / 5) = - arctan (5 / 6)"
    by (simp add: atan2_def arctan_minus)
  have c: "atan2 (3 / 2) 0 = pi / 2" "atan2 0 (9 / 5) = 0" "atan2 0 (- (9 / 5)) = pi"
    "atan2 (- (3 / 2)) 0 = - (pi / 2)"
    by (simp_all add: atan2_def)
  show ?thesis
    using arctan_5_6_bounds pi_gt_zero
    by (simp add: measureTriangle_def rhs_lesson_t1_def angle_def toDegrees_def a b c
        field_simps)
qed

lemma lesson_t2_angle_B: "angle_B (m_angles (measureTriangle rhs_lesson_t2)) = 90"
proof -
  have c: "atan2 0 (9 / 5) = 0" "atan2 (- (3 / 2)) 0 = - (pi / 2)"
    by (simp_all add: atan2_def)
  show ?thesis
    by (simp add: measureTriangle_def rhs_lesson_t2_def angle_def toDegrees_def c)
qed

lemma sqrt_lesson: "sqrt (9 / 4) = 3 / 2" "sqrt (81 / 25) = 9 / 5"
  by (rule real_sqrt_unique; simp add: power2_eq_square)+

lemma lesson_sides:
  "spec_sides rhs_lesson_t1 = [sqrt (549 / 100), 3 / 2, 9 / 5]"
  "spec_sides rhs_lesson_t2 = [3 / 2, sqrt (549 / 100), 9 / 5]"
  by (simp_all add: spec_sides_def rhs_lesson_t1_def rhs_lesson_t2_def distance_def
      power2_eq_square sqrt_lesson)

lemma lesson_hyp_gt: "9 / 5 < sqrt (549 / 100)" "3 / 2 < sqrt (549 / 100)"
  by (rule real_less_rsqrt; simp add: power2_eq_square)+

lemma lesson_hypotenuse:
  "spec_hypotenuse rhs_lesson_t1 = sqrt (549 / 100)"
  "spec_hypotenuse rhs_lesson_t2 = sqrt (549 / 100)"
  using lesson_hyp_gt by (simp_all add: spec_hypotenuse_def lesson_sides max_def)

lemma lesson_right_angles:
  "spec_interiorAngle (tri_C rhs_lesson_t1) (tri_A rhs_lesson_t1) (tri_B rhs_lesson_t1) = 90"
  "spec_interiorAngle (tri_B rhs_lesson_t2) (tri_A rhs_lesson_t2) (tri_C rhs_lesson_t2) = 90"
  by (simp_all add: spec_interiorAngle_def rhs_lesson_t1_def rhs_lesson_t2_def toDegrees_def)

text \<open>
  C7. The two triangles of the RHS lesson are right triangles with hypotenuses of the
  same length and a leg of the same length, so the criterion of the specification holds
  for them at the default tolerance. \<open>checkRHS\<close> returns null: \<open>measureTriangle\<close>
  reports 270 degrees for the right angle at \<open>C\<close> of the first triangle (the absolute
  value of an un-normalised difference of bearings, as under C2), so none of its
  measured angles is within tolerance of 90.
\<close>

theorem checkRHS_lesson_triangles_null:
  "spec_RHS rhs_lesson_t1 rhs_lesson_t2 (1 / 1000) \<and>
   angle_C (m_angles (measureTriangle rhs_lesson_t1)) = 270 \<and>
   checkRHS rhs_lesson_t1 rhs_lesson_t2 (1 / 1000) = None"
proof -
  have spec: "spec_RHS rhs_lesson_t1 rhs_lesson_t2 (1 / 1000)"
    using lesson_hyp_gt
    by (simp add: spec_RHS_def spec_hasRightAngle_def lesson_right_angles lesson_hypotenuse
        spec_otherSides_def lesson_sides)
  have lo: "45 / 2 < toDegrees (arctan (5 / 6))" and hi: "toDegrees (arctan (5 / 6)) < 45"
    using arctan_5_6_bounds pi_gt_zero by (simp_all add: toDegrees_def field_simps)
  have code: "checkRHS rhs_lesson_t1 rhs_lesson_t2 (1 / 1000) = None"
    using lo hi
    by (simp add: checkRHS_def Let_def lesson_t1_angles isEqual_Finite)
  show ?thesis using spec code by (simp add: lesson_t1_angles)
qed

theorem checkRHS_lesson_triangles_null_witness:
  "spec_hasRightAngle rhs_lesson_t1 (1 / 1000) \<and> spec_hasRightAngle rhs_lesson_t2 (1 / 1000) \<and>
   checkRHS rhs_lesson_t1 rhs_lesson_t2 (1 / 1000) \<noteq> Some rhs_condition"
  using checkRHS_lesson_triangles_null by (simp add: spec_RHS_def)

section \<open>Chip registry\<close>

lemma chip_ids_eq:
  "chip_ids = [''side-AB'', ''side-AC'', ''side-BC'', ''side-BD'', ''side-CD'', ''common-AD'',
     ''angle-BAD'', ''angle-CAD'', ''angle-B'', ''angle-C'']"
  by (simp add: chip_ids_def CHIP_DEFINITIONS_def mkDef_def)

lemma new_chips_keys: "map fst (chips newChipSystemManager) = chip_ids"
  by (simp add: newChipSystemManager_def initializeChips_def chip_ids_eq
      CHIP_DEFINITIONS_def mkDef_def chipOfDefinition_def)

lemma tri_straddle_isosceles: "isIsosceles tri_straddle default_tolerance"
  by (simp add: isIsosceles_def measureTriangle_def tri_straddle_def distance_def
      default_tolerance_def)

lemma available_manager_eq:
  "available_manager =
     \<lparr> chips = map (\<lambda>(i, c). (i, c\<lparr> isAvailable := True \<rparr>)) (chips newChipSystemManager),
       collectedChips = [] \<rparr>"
  using tri_straddle_isosceles
  by (simp add: available_manager_def updateAvailability_def newChipSystemManager_def
      initializeChips_def CHIP_DEFINITIONS_def mkDef_def chipOfDefinition_def)

lemma three_sides_collected:
  "collectedChips three_sides_manager = [''side-AB'', ''side-AC'', ''common-AD'']"
  using tri_straddle_isosceles
  by (simp add: three_sides_manager_def collect_in_def available_manager_eq collectChip_def
      newChipSystemManager_def initializeChips_def CHIP_DEFINITIONS_def mkDef_def
      chipOfDefinition_def set_add_def)

text \<open>
  C3 (as amended). \<open>isSASChipSetComplete ids\<close> is true exactly when \<open>ids\<close> contains the five
  required ids. \<open>checkSASCompletion\<close> is true exactly when the collected set contains
  \<open>side-AB\<close>, \<open>side-AC\<close> and \<open>common-AD\<close>: each of the three entries of \<open>SAS_PATTERNS\<close>
  requires these three ids and no angle.
\<close>

theorem SAS_completion_predicates:
  "isSASChipSetComplete ids = (spec_required_set \<subseteq> set ids) \<and>
   checkSASCompletion m = ({''side-AB'', ''side-AC'', ''common-AD''} \<subseteq> set (collectedChips m))"
  by (auto simp add: isSASChipSetComplete_def spec_required_set_def checkSASCompletion_def
      SAS_PATTERNS_def Let_def)

theorem SAS_completion_predicates_witness:
  "\<not> isSASChipSetComplete [''side-AB'', ''side-AC'', ''common-AD''] \<and>
   isSASChipSetComplete [''side-AB'', ''side-AC'', ''common-AD'', ''angle-BAD'', ''angle-CAD'']"
  using SAS_completion_predicates [of "[''side-AB'', ''side-AC'', ''common-AD'']" newChipSystemManager]
    SAS_completion_predicates
      [of "[''side-AB'', ''side-AC'', ''common-AD'', ''angle-BAD'', ''angle-CAD'']"
          newChipSystemManager]
  by (simp add: spec_required_set_def)

text \<open>
  C3 as stated fails for \<open>checkSASCompletion\<close>: with the two equal sides and the common
  side collected and no angle, it answers true although the collected set does not
  contain the required set.
\<close>

theorem checkSASCompletion_three_sides_counterexample:
  "checkSASCompletion three_sides_manager \<and>
   \<not> spec_required_set \<subseteq> set (collectedChips three_sides_manager)"
  by (simp add: checkSASCompletion_def SAS_PATTERNS_def three_sides_collected Let_def
      spec_required_set_def)

subsection \<open>Collecting a chip\<close>

lemma map_of_update_same: "map_of (AList.update k v al) k = Some v"
  by (simp add: update_conv')

lemma map_of_update_other: "j \<noteq> k \<Longrightarrow> map_of (AList.update k v al) j = map_of al j"
  by (simp add: update_conv')

lemma set_set_add: "set (set_add i xs) = insert i (set xs)"
  by (auto simp: set_add_def)

lemma distinct_set_add: "distinct xs \<Longrightarrow> distinct (set_add i xs)"
  by (simp add: set_add_def)

lemma collectChip_cases:
  "collectChip m i t fp =
     (case map_of (chips m) i of
        None \<Rightarrow> (False, m)
      | Some c \<Rightarrow>
          if collected c \<or> \<not> isAvailable c \<or> (\<exists>r. validationRule c = Some r \<and> \<not> r t fp)
          then (False, m)
          else (True, m\<lparr> chips := AList.update i (c\<lparr> collected := True \<rparr>) (chips m),
                         collectedChips := set_add i (collectedChips m) \<rparr>))"
  by (auto simp: collectChip_def split: option.splits)

text \<open>
  C4. \<open>collectChip\<close> returns false exactly when the chip does not exist, is already
  collected, is not available, or has a validation rule that fails on the arguments of
  this call; then the registry is unchanged. Otherwise it returns true, the chip is
  stored with \<open>collected\<close> true (no other chip changes) and the id is in the collected set.
  After a successful call, a second call with the same id returns false, whatever
  triangle and fold point it is given. The function is total: no branch raises.
\<close>

theorem collectChip_spec:
  "(\<not> fst (collectChip m i t fp) \<longleftrightarrow>
      (map_of (chips m) i = None \<or>
       (\<exists>c. map_of (chips m) i = Some c \<and>
            (collected c \<or> \<not> isAvailable c \<or>
             (\<exists>r. validationRule c = Some r \<and> \<not> r t fp))))) \<and>
   (\<not> fst (collectChip m i t fp) \<longrightarrow> snd (collectChip m i t fp) = m) \<and>
   (fst (collectChip m i t fp) \<longrightarrow>
      (\<exists>c. map_of (chips m) i = Some c \<and>
           map_of (chips (snd (collectChip m i t fp))) i = Some (c\<lparr> collected := True \<rparr>)) \<and>
      (\<forall>j. j \<noteq> i \<longrightarrow> map_of (chips (snd (collectChip m i t fp))) j = map_of (chips m) j) \<and>
      set (collectedChips (snd (collectChip m i t fp))) = insert i (set (collectedChips m)) \<and>
      \<not> fst (collectChip (snd (collectChip m i t fp)) i t' fp'))"
  by (cases "map_of (chips m) i")
     (auto simp: collectChip_cases map_of_update_same map_of_update_other set_set_add)

theorem collectChip_spec_witness:
  "fst (collectChip available_manager ''common-AD'' tri_straddle None) \<and>
   ''common-AD'' \<in> set (collectedChips (snd (collectChip available_manager ''common-AD'' tri_straddle None))) \<and>
   \<not> fst (collectChip (snd (collectChip available_manager ''common-AD'' tri_straddle None))
           ''common-AD'' tri_straddle None) \<and>
   \<not> fst (collectChip newChipSystemManager ''common-AD'' tri_straddle None) \<and>
   snd (collectChip newChipSystemManager ''common-AD'' tri_straddle None) = newChipSystemManager"
proof -
  have a: "fst (collectChip available_manager ''common-AD'' tri_straddle None)"
    by (simp add: available_manager_eq collectChip_def
      newChipSystemManager_def initializeChips_def CHIP_DEFINITIONS_def mkDef_def
      chipOfDefinition_def)
  have b: "\<not> fst (collectChip newChipSystemManager ''common-AD'' tri_straddle None)"
    by (simp add: collectChip_def
      newChipSystemManager_def initializeChips_def CHIP_DEFINITIONS_def mkDef_def
      chipOfDefinition_def)
  show ?thesis
    using a b
      collectChip_spec [of available_manager "''common-AD''" tri_straddle None tri_straddle None]
      collectChip_spec [of newChipSystemManager "''common-AD''" tri_straddle None tri_straddle None]
    by simp
qed

subsection \<open>Invariants of reachable managers\<close>

lemma keys_map_snd: "fst \<circ> (\<lambda>(i, c). (i, f i c)) = fst"
  by (auto simp: fun_eq_iff)

lemma keys_update_present:
  "map_of al k = Some c \<Longrightarrow> map fst (AList.update k v al) = map fst al"
  by (simp add: update_keys map_of_eq_None_iff [symmetric] del: map_of_eq_None_iff)

lemma keys_importChipState: "map fst (importChipState e cs) = map fst cs"
  by (auto simp: importChipState_def keys_update_present split: option.splits)

lemma keys_fold_importChipState: "map fst (fold importChipState es cs) = map fst cs"
  by (induction es arbitrary: cs) (simp_all add: keys_importChipState)

lemma distinct_fold_set_add: "distinct acc \<Longrightarrow> distinct (fold set_add xs acc)"
  by (induction xs arbitrary: acc) (simp_all add: distinct_set_add)

lemma set_fold_set_add: "set (fold set_add xs acc) = set xs \<union> set acc"
  by (induction xs arbitrary: acc) (auto simp: set_set_add)

lemma fold_set_add_distinct: "distinct (acc @ xs) \<Longrightarrow> fold set_add xs acc = acc @ xs"
  by (induction xs arbitrary: acc) (auto simp: set_add_def)

lemma keys_collectChip: "map fst (chips (snd (collectChip m i t fp))) = map fst (chips m)"
  by (cases "map_of (chips m) i") (auto simp: collectChip_cases keys_update_present)

lemma keys_uncollectChip: "map fst (chips (snd (uncollectChip m i))) = map fst (chips m)"
  by (cases "map_of (chips m) i") (auto simp: uncollectChip_def keys_update_present)

lemma reachable_keys: "reachable P m \<Longrightarrow> map fst (chips m) = chip_ids"
proof (induction rule: reachable.induct)
  case r_new show ?case by (rule new_chips_keys)
next
  case (r_updateAvailability m t fp)
  then show ?case
    by (simp add: updateAvailability_def keys_map_snd)
next
  case (r_collectChip m i t fp) then show ?case by (simp add: keys_collectChip)
next
  case (r_uncollectChip m i) then show ?case by (simp add: keys_uncollectChip)
next
  case (r_reset m)
  then show ?case
    by (simp add: reset_def keys_map_snd)
next
  case (r_importState m st) then show ?case by (simp add: importState_def keys_fold_importChipState)
qed

lemma reachable_distinct: "reachable P m \<Longrightarrow> distinct (collectedChips m)"
proof (induction rule: reachable.induct)
  case r_new show ?case by (simp add: newChipSystemManager_def)
next
  case (r_updateAvailability m t fp) then show ?case by (simp add: updateAvailability_def)
next
  case (r_collectChip m i t fp)
  then show ?case
    by (cases "map_of (chips m) i") (auto simp: collectChip_cases distinct_set_add)
next
  case (r_uncollectChip m i)
  then show ?case
    by (cases "map_of (chips m) i") (auto simp: uncollectChip_def set_delete_def distinct_removeAll)
next
  case (r_reset m) then show ?case by (simp add: reset_def)
next
  case (r_importState m st) then show ?case by (simp add: importState_def distinct_fold_set_add)
qed

lemma reachable_known: "reachable known_ids_only m \<Longrightarrow> set (collectedChips m) \<subseteq> set chip_ids"
proof (induction rule: reachable.induct)
  case r_new show ?case by (simp add: newChipSystemManager_def)
next
  case (r_updateAvailability m t fp) then show ?case by (simp add: updateAvailability_def)
next
  case (r_collectChip m i t fp)
  have k: "map fst (chips m) = chip_ids" using r_collectChip.hyps by (rule reachable_keys)
  show ?case
  proof (cases "map_of (chips m) i")
    case None then show ?thesis using r_collectChip.IH by (simp add: collectChip_cases)
  next
    case (Some c)
    then have "i \<in> set (map fst (chips m))" by (metis map_of_eq_None_iff option.distinct(1) set_map)
    then show ?thesis using r_collectChip.IH Some k
      by (auto simp: collectChip_cases set_set_add)
  qed
next
  case (r_uncollectChip m i)
  then show ?case
    by (cases "map_of (chips m) i") (auto simp: uncollectChip_def set_delete_def)
next
  case (r_reset m) then show ?case by (simp add: reset_def)
next
  case (r_importState m st)
  then show ?case
    by (auto simp: importState_def set_fold_set_add known_ids_only_def list_all_iff)
qed

lemma three_sides_reachable: "reachable P three_sides_manager"
  unfolding three_sides_manager_def collect_in_def available_manager_def
  by (intro r_collectChip r_updateAvailability r_new)

text \<open>
  C6 (as amended). After every sequence of registry operations in which \<open>importState\<close> is
  only given records whose \<open>collectedChips\<close> are ids of registered chips, \<open>getProgress\<close>
  reports \<open>collected \<le> total\<close>.
\<close>

theorem getProgress_collected_le_total:
  "reachable known_ids_only m \<Longrightarrow> p_collected (getProgress m) \<le> p_total (getProgress m)"
proof -
  assume r: "reachable known_ids_only m"
  have "length (collectedChips m) = card (set (collectedChips m))"
    using reachable_distinct [OF r] by (simp add: distinct_card)
  also have "\<dots> \<le> card (set chip_ids)"
    using reachable_known [OF r] by (simp add: card_mono)
  also have "\<dots> \<le> length chip_ids" by (rule card_length)
  also have "\<dots> = length (chips m)"
    using reachable_keys [OF r] by (metis length_map)
  finally show ?thesis by (simp add: getProgress_def Let_def)
qed

theorem getProgress_collected_le_total_witness:
  "reachable known_ids_only (importState newChipSystemManager (exportState three_sides_manager)) \<and>
   p_collected (getProgress (importState newChipSystemManager (exportState three_sides_manager)))
     \<le> p_total (getProgress (importState newChipSystemManager (exportState three_sides_manager)))"
proof -
  have k: "known_ids_only (exportState three_sides_manager)"
    by (simp add: known_ids_only_def exportState_def three_sides_collected chip_ids_eq)
  have r: "reachable known_ids_only (importState newChipSystemManager (exportState three_sides_manager))"
    by (rule r_importState [where P = known_ids_only, OF r_new k])
  show ?thesis using r getProgress_collected_le_total [OF r] by simp
qed

text \<open>
  C6 as stated fails: \<open>importState\<close> copies every id of the record into the collected
  set, registered or not. A record with eleven different ids leaves a manager of ten
  chips with \<open>collected = 11\<close>.
\<close>

theorem getProgress_import_counterexample:
  "reachable any_record overfull_manager \<and>
   p_collected (getProgress overfull_manager) = 11 \<and>
   p_total (getProgress overfull_manager) = 10 \<and>
   \<not> p_collected (getProgress overfull_manager) \<le> p_total (getProgress overfull_manager)"
proof -
  have r: "reachable any_record overfull_manager"
    unfolding overfull_manager_def by (rule r_importState [OF r_new]) (simp add: any_record_def)
  have d: "distinct ([] @ eleven_ids)" by (simp add: eleven_ids_def chip_ids_eq)
  have c: "collectedChips overfull_manager = eleven_ids"
    using fold_set_add_distinct [OF d] by (simp add: overfull_manager_def importState_def)
  have "length (map fst (chips overfull_manager)) = length chip_ids"
    using reachable_keys [OF r] by simp
  then have t: "length (chips overfull_manager) = 10"
    by (simp add: chip_ids_eq)
  show ?thesis using r c t by (simp add: getProgress_def Let_def eleven_ids_def chip_ids_eq)
qed

subsection \<open>Export and import\<close>

lemma apply_flags_simps:
  "apply_flags f (apply_flags g c) = apply_flags f c"
  "apply_flags (flags_of c) c = c"
  "flags_of (apply_flags f c) = f"
  by (simp_all add: apply_flags_def flags_of_def)

lemma map_of_importChipState:
  "map_of (importChipState e zs) k =
     (if k = fst e then map_option (apply_flags (snd e)) (map_of zs k) else map_of zs k)"
  by (auto simp: importChipState_def update_conv' apply_flags_def split: option.splits)

lemma map_of_fold_importChipState:
  "map_of (fold importChipState es ys) k =
     map_option (\<lambda>c. case map_of (rev es) k of Some f \<Rightarrow> apply_flags f c | None \<Rightarrow> c)
       (map_of ys k)"
proof (induction es rule: rev_induct)
  case Nil
  show ?case by (simp add: option.map_ident)
next
  case (snoc e es)
  have "map_of (fold importChipState (es @ [e]) ys) k =
          (if k = fst e
           then map_option (apply_flags (snd e)) (map_of (fold importChipState es ys) k)
           else map_of (fold importChipState es ys) k)"
    by (simp add: map_of_importChipState)
  then show ?case
    unfolding snoc.IH
    by (cases "map_of ys k") (auto simp: apply_flags_simps split: option.splits)
qed

lemma map_of_rev_distinct:
  assumes "distinct (map fst xs)"
  shows "map_of (rev xs) k = map_of xs k"
proof (cases "map_of xs k")
  case None
  then have "k \<notin> fst ` set (rev xs)" by (simp add: map_of_eq_None_iff)
  then have r: "map_of (rev xs) k = None" by (metis map_of_eq_None_iff)
  show ?thesis by (simp only: None r)
next
  case (Some v)
  have "distinct (map fst (rev xs))" using assms by (simp add: rev_map [symmetric])
  then show ?thesis using Some assms by simp
qed

lemma exported_chipStates:
  "ex_chipStates (exportState m) = map (\<lambda>(i, c). (i, flags_of c)) (chips m)"
  by (simp add: exportState_def flags_of_def)

lemma map_of_exported:
  "map_of (map (\<lambda>(i, c). (i, flags_of c)) xs) k = map_option flags_of (map_of xs k)"
  by (induction xs) auto

lemma assoc_list_eqI:
  "map fst xs = map fst ys \<Longrightarrow> distinct (map fst xs) \<Longrightarrow>
   (\<And>k. k \<in> set (map fst xs) \<Longrightarrow> map_of xs k = map_of ys k) \<Longrightarrow> xs = ys"
proof (induction xs arbitrary: ys)
  case Nil
  then show ?case by simp
next
  case (Cons x xs)
  obtain y ys' where ys: "ys = y # ys'" using Cons.prems(1) by (cases ys) auto
  have fx: "fst x = fst y" using Cons.prems(1) ys by simp
  have "map_of (x # xs) (fst x) = map_of ys (fst x)" using Cons.prems(3) [of "fst x"] by simp
  then have xy: "x = y" using ys fx by (cases x, cases y) simp
  have "xs = ys'"
  proof (rule Cons.IH)
    show "map fst xs = map fst ys'" using Cons.prems(1) ys by simp
    show "distinct (map fst xs)" using Cons.prems(2) by simp
    fix k assume k: "k \<in> set (map fst xs)"
    then have "k \<noteq> fst x" using Cons.prems(2) by force
    moreover have "map_of (x # xs) k = map_of ys k" using Cons.prems(3) k by simp
    ultimately show "map_of xs k = map_of ys' k" using ys xy by (cases y) (auto split: if_splits)
  qed
  then show ?case using ys xy by simp
qed

lemma distinct_chip_ids: "distinct chip_ids"
  by (simp add: chip_ids_eq)

lemma import_own_export_chips:
  assumes "distinct (map fst xs)"
  shows "fold importChipState (map (\<lambda>(i, c). (i, flags_of c)) xs) xs = xs"
proof (rule assoc_list_eqI)
  show "map fst (fold importChipState (map (\<lambda>(i, c). (i, flags_of c)) xs) xs) = map fst xs"
    by (rule keys_fold_importChipState)
  show "distinct (map fst (fold importChipState (map (\<lambda>(i, c). (i, flags_of c)) xs) xs))"
    using assms by (simp add: keys_fold_importChipState)
  fix k
  have d: "distinct (map fst (map (\<lambda>(i, c). (i, flags_of c)) xs))"
    using assms by (simp add: keys_map_snd)
  show "map_of (fold importChipState (map (\<lambda>(i, c). (i, flags_of c)) xs) xs) k = map_of xs k"
    by (cases "map_of xs k")
       (simp_all add: map_of_fold_importChipState map_of_rev_distinct [OF d] map_of_exported
          apply_flags_simps)
qed

lemma export_import_chips:
  assumes "distinct (map fst xs)" and "map fst ys = map fst xs"
  shows "map (\<lambda>(i, c). (i, flags_of c)) (fold importChipState (map (\<lambda>(i, c). (i, flags_of c)) xs) ys)
           = map (\<lambda>(i, c). (i, flags_of c)) xs"
proof (rule assoc_list_eqI)
  let ?es = "map (\<lambda>(i, c). (i, flags_of c)) xs"
  show "map fst (map (\<lambda>(i, c). (i, flags_of c)) (fold importChipState ?es ys)) = map fst ?es"
    using assms(2) by (simp add: keys_map_snd keys_fold_importChipState)
  show "distinct (map fst (map (\<lambda>(i, c). (i, flags_of c)) (fold importChipState ?es ys)))"
    using assms by (simp add: keys_map_snd keys_fold_importChipState)
  have d: "distinct (map fst ?es)"
    using assms by (simp add: keys_map_snd)
  fix k
  assume "k \<in> set (map fst (map (\<lambda>(i, c). (i, flags_of c)) (fold importChipState ?es ys)))"
  then have "k \<in> set (map fst ys)" "k \<in> set (map fst xs)"
    using assms(2) by (simp_all add: keys_map_snd keys_fold_importChipState)
  then obtain c c' where c: "map_of ys k = Some c" "map_of xs k = Some c'"
    by (metis map_of_eq_None_iff not_Some_eq set_map)
  show "map_of (map (\<lambda>(i, c). (i, flags_of c)) (fold importChipState ?es ys)) k = map_of ?es k"
    using c
    by (simp add: map_of_exported map_of_fold_importChipState map_of_rev_distinct [OF d]
        apply_flags_simps)
qed

lemma imported_chip:
  assumes "distinct (map fst xs)" and "map_of xs i = Some c" and "map_of ys i = Some c'"
  shows "map_of (fold importChipState (map (\<lambda>(i, c). (i, flags_of c)) xs) ys) i
           = Some (c'\<lparr> collected := collected c, isAvailable := isAvailable c \<rparr>)"
proof -
  have d: "distinct (map fst (map (\<lambda>(i, c). (i, flags_of c)) xs))"
    using assms(1) by (simp add: keys_map_snd)
  show ?thesis
    using assms(2,3)
    by (simp add: map_of_fold_importChipState map_of_rev_distinct [OF d] map_of_exported)
       (simp add: apply_flags_def flags_of_def)
qed

lemma three_sides_AB:
  "map_option flags_of (map_of (chips three_sides_manager) ''side-AB'')
     = Some \<lparr> st_collected = True, st_isAvailable = True \<rparr>"
  using tri_straddle_isosceles
  by (simp add: three_sides_manager_def collect_in_def available_manager_eq collectChip_def
      newChipSystemManager_def initializeChips_def CHIP_DEFINITIONS_def mkDef_def
      chipOfDefinition_def set_add_def flags_of_def)

lemma new_manager_AB:
  "map_option flags_of (map_of (chips newChipSystemManager) ''side-AB'')
     = Some \<lparr> st_collected = False, st_isAvailable = False \<rparr>"
  by (simp add: newChipSystemManager_def initializeChips_def CHIP_DEFINITIONS_def mkDef_def
      chipOfDefinition_def flags_of_def)

text \<open>
  C8. For reachable managers \<open>m\<close> and \<open>m'\<close>, after \<open>m'\<close> imports the export of \<open>m\<close> its
  collected-id set is that of \<open>m\<close>, it has the chips of \<open>m\<close> under the same ids, and each
  chip is the chip \<open>m'\<close> had with the \<open>collected\<close> and \<open>isAvailable\<close> flags of the chip of
  \<open>m\<close>. Hence importing its own export leaves \<open>m\<close> as it is, and the next export of
  \<open>m'\<close> is the record that was imported.
\<close>

theorem export_import_roundtrip:
  assumes "reachable any_record m" and "reachable any_record m'"
  shows "collectedChips (importState m' (exportState m)) = collectedChips m \<and>
         map fst (chips (importState m' (exportState m))) = map fst (chips m) \<and>
         (\<forall>i c. map_of (chips m) i = Some c \<longrightarrow>
            (\<exists>c'. map_of (chips m') i = Some c' \<and>
                  map_of (chips (importState m' (exportState m))) i
                    = Some (c'\<lparr> collected := collected c, isAvailable := isAvailable c \<rparr>))) \<and>
         importState m (exportState m) = m \<and>
         exportState (importState m' (exportState m)) = exportState m"
proof -
  have km: "map fst (chips m) = chip_ids" and km': "map fst (chips m') = chip_ids"
    using assms by (simp_all add: reachable_keys)
  have dm: "distinct (map fst (chips m))" using km distinct_chip_ids by simp
  have dc: "distinct ([] @ collectedChips m)" using reachable_distinct [OF assms(1)] by simp
  have cc: "fold set_add (collectedChips m) [] = collectedChips m"
    using fold_set_add_distinct [OF dc] by simp
  have ids: "collectedChips (importState m' (exportState m)) = collectedChips m"
    using cc by (simp add: importState_def exportState_def)
  have keys: "map fst (chips (importState m' (exportState m))) = map fst (chips m)"
    using km km' by (simp add: importState_def keys_fold_importChipState)
  have flags: "\<exists>c'. map_of (chips m') i = Some c' \<and>
                  map_of (chips (importState m' (exportState m))) i
                    = Some (c'\<lparr> collected := collected c, isAvailable := isAvailable c \<rparr>)"
    if c: "map_of (chips m) i = Some c" for i c
  proof -
    have "i \<in> set (map fst (chips m'))"
      using c km km' by (metis map_of_eq_None_iff option.distinct(1) set_map)
    then obtain c' where c': "map_of (chips m') i = Some c'"
      by (metis map_of_eq_None_iff not_Some_eq set_map)
    show ?thesis
      using imported_chip [OF dm c c'] c'
      by (simp add: importState_def exported_chipStates)
  qed
  have a: "importState m (exportState m) = m"
    using import_own_export_chips [OF dm] cc
    by (simp add: importState_def exported_chipStates) (simp add: exportState_def)
  have b: "exportState (importState m' (exportState m)) = exportState m"
    using export_import_chips [OF dm, of "chips m'"] km km' cc
    by (simp add: importState_def exportState_def flags_of_def)
  show ?thesis using ids keys flags a b by blast
qed

theorem export_import_roundtrip_witness:
  "reachable any_record three_sides_manager \<and> reachable any_record newChipSystemManager \<and>
   collectedChips (importState newChipSystemManager (exportState three_sides_manager))
     = [''side-AB'', ''side-AC'', ''common-AD''] \<and>
   map_option flags_of (map_of (chips newChipSystemManager) ''side-AB'')
     = Some \<lparr> st_collected = False, st_isAvailable = False \<rparr> \<and>
   map_option flags_of
     (map_of (chips (importState newChipSystemManager (exportState three_sides_manager)))
        ''side-AB'')
     = Some \<lparr> st_collected = True, st_isAvailable = True \<rparr> \<and>
   exportState (importState newChipSystemManager (exportState three_sides_manager))
     = exportState three_sides_manager"
proof -
  obtain c where c: "map_of (chips three_sides_manager) ''side-AB'' = Some c"
    and f: "flags_of c = \<lparr> st_collected = True, st_isAvailable = True \<rparr>"
    using three_sides_AB by auto
  have r: "reachable any_record three_sides_manager" by (rule three_sides_reachable)
  have n: "reachable any_record newChipSystemManager" by (rule r_new)
  from export_import_roundtrip [OF r n] c
  obtain c' where
    "map_of (chips (importState newChipSystemManager (exportState three_sides_manager)))
        ''side-AB''
       = Some (c'\<lparr> collected := collected c, isAvailable := isAvailable c \<rparr>)"
    by blast
  then have g: "map_option flags_of
     (map_of (chips (importState newChipSystemManager (exportState three_sides_manager)))
        ''side-AB'')
     = Some \<lparr> st_collected = True, st_isAvailable = True \<rparr>"
    using f by (simp add: flags_of_def)
  show ?thesis
    using r n g new_manager_AB export_import_roundtrip [OF r n]
    by (simp add: three_sides_collected)
qed

section \<open>Activity state machine\<close>

text \<open>
  C1 (as amended). In a state that guards \<open>COMPLETE_STEP\<close> and \<open>PROCEED_TO_NEXT\<close>
  (\<open>action\<close>, \<open>inquiry\<close>, \<open>discovery\<close>), dispatching either event while the guard is
  false leaves the machine in the same state and changes no field of the context other
  than \<open>error\<close>; \<open>PROCEED_TO_NEXT\<close> changes nothing at all. \<open>transition\<close> is total: no
  exception.
\<close>

theorem guard_failure_stays:
  assumes "ev = COMPLETE_STEP \<or> ev = PROCEED_TO_NEXT" and "guard_fails st ctx"
  shows "fst (transition now (st, ctx) ev) = st \<and>
         (snd (transition now (st, ctx) ev))\<lparr> error := error ctx \<rparr> = ctx \<and>
         (ev = PROCEED_TO_NEXT \<longrightarrow> snd (transition now (st, ctx) ev) = ctx)"
  using assms by (cases st) (auto simp: enter_def setError_def)

theorem guard_failure_stays_witness:
  "guard_fails Action ctx_fold45 \<and>
   fst (transition 0 (Action, ctx_fold45) COMPLETE_STEP) = Action \<and>
   fst (transition 0 (Action, ctx_fold45) PROCEED_TO_NEXT) = Action \<and>
   snd (transition 0 (Action, ctx_fold45) PROCEED_TO_NEXT) = ctx_fold45"
proof -
  have g: "guard_fails Action ctx_fold45"
    by (simp add: canProceedFromAction_def ctx_fold45_def initialContext_def)
  show ?thesis
    using g guard_failure_stays [of COMPLETE_STEP Action ctx_fold45 0]
      guard_failure_stays [of PROCEED_TO_NEXT Action ctx_fold45 0]
    by simp
qed

text \<open>
  C1 as stated fails: from \<open>action\<close> with the fold angle at 45, the machine stays in
  \<open>action\<close>, and \<open>context.error\<close> is null after \<open>COMPLETE_STEP\<close> (\<open>setError\<close> writes the
  event's text only for an \<open>ERROR\<close> event, null for every other) and after
  \<open>PROCEED_TO_NEXT\<close> (which has no fallback transition).
\<close>

theorem guard_failure_error_null_counterexample:
  "guard_fails Action ctx_fold45 \<and>
   fst (transition 0 (Action, ctx_fold45) COMPLETE_STEP) = Action \<and>
   error (snd (transition 0 (Action, ctx_fold45) COMPLETE_STEP)) = None \<and>
   error (snd (transition 0 (Action, ctx_fold45) PROCEED_TO_NEXT)) = None"
  by (simp add: canProceedFromAction_def ctx_fold45_def initialContext_def enter_def
      setError_def)

text \<open>
  C5 (as amended). From \<open>inquiry\<close>, \<open>discovery\<close>, \<open>misconception\<close> and \<open>justification\<close>
  (positions 1 to 4 of the sequence) \<open>PROCEED_TO_PREV\<close> moves the machine to the state
  one position earlier; the context is unchanged, except that entering \<open>action\<close> clears
  \<open>error\<close>. In \<open>completed\<close> (position 5) the event has no handler and changes nothing.
\<close>

theorem proceed_to_prev_steps_back:
  "(0 < i \<and> i < 5 \<longrightarrow>
      transition now (pedagogical_sequence ! i, ctx) PROCEED_TO_PREV
        = (pedagogical_sequence ! (i - 1), if i = 1 then clearError ctx else ctx)) \<and>
   transition now (pedagogical_sequence ! 5, ctx) PROCEED_TO_PREV = (Completed, ctx)"
proof -
  have "i = 1 \<or> i = 2 \<or> i = 3 \<or> i = 4" if "0 < i" "i < 5"
    using that by arith
  then show ?thesis
    by (auto simp: pedagogical_sequence_def enter_def)
qed

theorem proceed_to_prev_steps_back_witness:
  "pedagogical_sequence ! 4 = Justification \<and> pedagogical_sequence ! 3 = Misconception \<and>
   transition 0 (Justification, initialContext) PROCEED_TO_PREV = (Misconception, initialContext)"
  using proceed_to_prev_steps_back [of 4 0 initialContext]
  by (simp add: pedagogical_sequence_def)

text \<open>
  C5 as stated fails in \<open>completed\<close>: \<open>PROCEED_TO_PREV\<close> leaves the machine in
  \<open>completed\<close>, not in \<open>justification\<close>.
\<close>

theorem proceed_to_prev_completed_counterexample:
  "pedagogical_sequence ! 5 = Completed \<and> pedagogical_sequence ! 4 = Justification \<and>
   fst (transition 0 (Completed, initialContext) PROCEED_TO_PREV) = Completed \<and>
   fst (transition 0 (Completed, initialContext) PROCEED_TO_PREV) \<noteq> Justification"
  by (simp add: pedagogical_sequence_def)

end
